theory Spec2Isabelle
  imports Main "HOL-Library.Sublist"
begin

section \<open>Route table and router of xweb (route.go)\<close>

subsection \<open>Standard-library operations used by the router\<close>

text \<open>
  \<^verbatim>\<open>strings.ContainsAny(s, chars)\<close>: some character of \<open>chars\<close> occurs in \<open>s\<close>.
\<close>

definition ContainsAny :: "string \<Rightarrow> string \<Rightarrow> bool" where
  "ContainsAny s chars = list_ex (\<lambda>c. c \<in> set chars) s"

text \<open>
  \<^verbatim>\<open>strings.Contains(s, substr)\<close>: \<open>substr\<close> occurs in \<open>s\<close> as a contiguous run.
\<close>

fun Contains :: "string \<Rightarrow> string \<Rightarrow> bool" where
  "Contains [] substr = (substr = [])"
| "Contains (c # s) substr = (prefix substr (c # s) \<or> Contains s substr)"

text \<open>
  The packages \<^verbatim>\<open>regexp\<close> and \<^verbatim>\<open>path\<close> belong to the Go distribution, not to
  the repository. The router is modelled over any implementation of the three regexp
  operations and of \<^verbatim>\<open>path.Join\<close> it calls: \<open>'rx\<close> is the type of compiled
  expressions (\<^verbatim>\<open>*regexp.Regexp\<close>), \<open>Compile\<close> returns \<open>Inl\<close> of the error text or
  \<open>Inr\<close> of the compiled expression, and \<open>FindStringSubmatch\<close> returns the empty list
  for Go's \<^verbatim>\<open>nil\<close> slice.
\<close>

record 'rx stdlib =
  Compile :: "string \<Rightarrow> string + 'rx"
  MatchString :: "'rx \<Rightarrow> string \<Rightarrow> bool"
  FindStringSubmatch :: "'rx \<Rightarrow> string \<Rightarrow> string list"
  Join :: "string \<Rightarrow> string \<Rightarrow> string"

subsection \<open>Data model\<close>

text \<open>
  The fields of \<^verbatim>\<open>App\<close> that route.go reads: \<^verbatim>\<open>AppConfig.CheckXrsf\<close>,
  \<^verbatim>\<open>AppConfig.MaxUploadSize\<close> and the map \<^verbatim>\<open>VarMaps\<close> (its values, of any type in Go,
  are strings here).
\<close>

record App =
  CheckXrsf :: bool
  MaxUploadSize :: int
  VarMaps :: "string \<rightharpoonup> string"

text \<open>
  \<^verbatim>\<open>actionHandler\<close>: \<open>cr\<close> is a pointer and is \<^verbatim>\<open>nil\<close> (\<open>None\<close>) until addAction
  stores a compiled expression; \<open>'t\<close> stands for \<^verbatim>\<open>reflect.Type\<close>.
\<close>

record ('rx, 't) actionHandler =
  app :: App
  methods :: "string \<rightharpoonup> bool"
  cr :: "'rx option"
  ctype :: "'t"
  handler :: string

text \<open>The two implementations of the interface \<^verbatim>\<open>handler\<close>.\<close>

datatype ('rx, 't) handler =
  StaticHandler App
| ActionHandler "('rx, 't) actionHandler"

text \<open>
  \<^verbatim>\<open>Routes\<close>; its field \<^verbatim>\<open>app\<close> is \<open>routes_app\<close> here, the name \<open>app\<close> being the
  handler's.
\<close>

record ('rx, 't) Routes =
  routes_app :: App
  mapRoutes :: "string \<rightharpoonup> ('rx, 't) handler"
  rgRoutes :: "('rx, 't) actionHandler list"
  defaultIndex :: "string list"

text \<open>
  The part of \<^verbatim>\<open>http.Request\<close> that route.go reads: the method, \<^verbatim>\<open>URL.Path\<close>,
  the Content-Type header, the cookies in the order of the Cookie header, and
  \<^verbatim>\<open>req.Form\<close> (a missing key gives the empty list, as indexing a Go map does).
\<close>

record Request =
  Method :: string
  URL_Path :: string
  ContentType :: string
  Cookies :: "(string \<times> string) list"
  Form :: "string \<Rightarrow> string list"

subsection \<open>Registration\<close>

definition NewRoutes :: "App \<Rightarrow> string list \<Rightarrow> ('rx, 't) Routes" where
  "NewRoutes a defaultHome =
     \<lparr>routes_app = a, mapRoutes = Map.empty, rgRoutes = [], defaultIndex = defaultHome\<rparr>"

definition addStatic ::
  "string \<Rightarrow> ('rx, 't) handler \<Rightarrow> ('rx, 't) Routes \<Rightarrow> string option \<times> ('rx, 't) Routes" where
  "addStatic s h r = (None, r\<lparr>mapRoutes := (mapRoutes r)(s \<mapsto> h)\<rparr>)"

definition NewActionHandler :: "App \<Rightarrow> 't \<Rightarrow> string \<Rightarrow> ('rx, 't) actionHandler" where
  "NewActionHandler a ct h =
     \<lparr>app = a, methods = Map.empty, cr = None, ctype = ct, handler = h\<rparr>"

text \<open>
  \<^verbatim>\<open>addAction\<close> returns the error (\<open>None\<close> for \<^verbatim>\<open>nil\<close>) together with the route
  table after the call, so that what a failed registration leaves behind is visible.
\<close>

definition addAction ::
  "'rx stdlib \<Rightarrow> string \<Rightarrow> (string \<rightharpoonup> bool) \<Rightarrow> 't \<Rightarrow> string \<Rightarrow> ('rx, 't) Routes
     \<Rightarrow> string option \<times> ('rx, 't) Routes" where
  "addAction L s ms ct actionName r =
     (let h = \<lparr>app = routes_app r, methods = ms, cr = None, ctype = ct, handler = actionName\<rparr>
      in if \<not> ContainsAny s ''*?''
         then (None, r\<lparr>mapRoutes := (mapRoutes r)(s \<mapsto> ActionHandler h)\<rparr>)
         else (case Compile L s of
                 Inl err \<Rightarrow> (Some err, r)
               | Inr re \<Rightarrow> (None, r\<lparr>rgRoutes := rgRoutes r @ [h\<lparr>cr := Some re\<rparr>]\<rparr>)))"

subsection \<open>Route selection\<close>

text \<open>
  What \<^verbatim>\<open>handle\<close> does once it has looked the path up: \<open>CallDo h\<close> is
  \<^verbatim>\<open>handler.Do(w, req)\<close> on an entry of the map, \<open>CallDoCr h caps\<close> is
  \<^verbatim>\<open>handler.DoCr(w, req, match[1:])\<close> on an entry of the slice, \<open>NotFound\<close> is falling
  off the end of the function, and \<open>Panic\<close> is a run-time panic (a \<^verbatim>\<open>nil\<close> expression,
  or indexing an empty match).
\<close>

datatype ('rx, 't) dispatch =
  CallDo "('rx, 't) handler"
| CallDoCr "('rx, 't) actionHandler" "string list"
| NotFound
| Panic string

text \<open>
  The route-table operations \<^verbatim>\<open>handle\<close> performs, in order: a lookup in the map under
  a key, and the two regexp calls on the entry of the slice at an index.
\<close>

datatype probe =
  MapLookup string
| MatchStringCall nat
| FindStringSubmatchCall nat

definition after :: "'e list \<Rightarrow> 'e list \<times> 'a \<Rightarrow> 'e list \<times> 'a" where
  "after ps res = (ps @ fst res, snd res)"

text \<open>
  The loop over \<^verbatim>\<open>r.rgRoutes\<close> (lines 254-266), from index \<open>i\<close> on; \<open>None\<close> when
  the loop ends without a dispatch.
\<close>

fun rgLoop ::
  "'rx stdlib \<Rightarrow> string \<Rightarrow> nat \<Rightarrow> ('rx, 't) actionHandler list
     \<Rightarrow> probe list \<times> ('rx, 't) dispatch option" where
  "rgLoop L requestPath i [] = ([], None)"
| "rgLoop L requestPath i (h # hs) =
     (case cr h of
        None \<Rightarrow> ([MatchStringCall i], Some (Panic ''nil pointer dereference''))
      | Some re \<Rightarrow>
          if \<not> MatchString L re requestPath
          then after [MatchStringCall i] (rgLoop L requestPath (Suc i) hs)
          else (let match = FindStringSubmatch L re requestPath
                in case match of
                     [] \<Rightarrow> ([MatchStringCall i, FindStringSubmatchCall i],
                            Some (Panic ''index out of range''))
                   | m0 # caps \<Rightarrow>
                       if length m0 \<noteq> length requestPath
                       then after [MatchStringCall i, FindStringSubmatchCall i]
                              (rgLoop L requestPath (Suc i) hs)
                       else ([MatchStringCall i, FindStringSubmatchCall i],
                             Some (CallDoCr h caps))))"

text \<open>The loop over \<^verbatim>\<open>r.defaultIndex\<close> (lines 269-275).\<close>

fun indexLoop ::
  "'rx stdlib \<Rightarrow> (string \<rightharpoonup> ('rx, 't) handler) \<Rightarrow> string \<Rightarrow> string list
     \<Rightarrow> probe list \<times> ('rx, 't) dispatch option" where
  "indexLoop L m requestPath [] = ([], None)"
| "indexLoop L m requestPath (page # pages) =
     (let idxPath = Join L requestPath page
      in case m idxPath of
           Some h \<Rightarrow> ([MapLookup idxPath], Some (CallDo h))
         | None \<Rightarrow> after [MapLookup idxPath] (indexLoop L m requestPath pages))"

text \<open>
  Lines 235-239 and 246-278 of \<^verbatim>\<open>handle\<close>, with the call it ends in returned instead
  of run, and the probes it made on the way.
\<close>

definition handle_route ::
  "'rx stdlib \<Rightarrow> ('rx, 't) Routes \<Rightarrow> Request \<Rightarrow> probe list \<times> ('rx, 't) dispatch" where
  "handle_route L r req =
     (let method = (if Method req = ''HEAD'' then ''GET'' else Method req);
          requestPath = URL_Path req
      in case mapRoutes r requestPath of
           Some h \<Rightarrow> ([MapLookup requestPath], CallDo h)
         | None \<Rightarrow>
             (case rgLoop L requestPath 0 (rgRoutes r) of
                (t1, Some d) \<Rightarrow> (MapLookup requestPath # t1, d)
              | (t1, None) \<Rightarrow>
                  (case indexLoop L (mapRoutes r) requestPath (defaultIndex r) of
                     (t2, Some d) \<Rightarrow> (MapLookup requestPath # t1 @ t2, d)
                   | (t2, None) \<Rightarrow> (MapLookup requestPath # t1 @ t2, NotFound))))"


subsection \<open>The dispatcher\<close>

text \<open>
  The kinds of \<^verbatim>\<open>reflect.Value\<close> that \<^verbatim>\<open>DoCr\<close> tells apart in a result: a string,
  a byte slice, a non-nil error (with its text), anything else; \<open>VValues\<close> is
  \<^verbatim>\<open>reflect.ValueOf(ret)\<close>, the argument of the After hook.
\<close>

datatype val =
  VString string
| VBytes string
| VError string
| VOther
| VValues "val list"

text \<open>
  The response writer and the logger. \<^verbatim>\<open>http.ResponseWriter\<close> is an interface of
  net/http: the model keeps the header map and the calls of \<^verbatim>\<open>WriteHeader\<close> and
  \<^verbatim>\<open>Write\<close> in the order they were made; \<open>writeErr\<close> is the error \<^verbatim>\<open>Write\<close>
  reports (\<open>None\<close> for \<^verbatim>\<open>nil\<close>). \<open>logs\<close> holds one entry for each
  \<^verbatim>\<open>Println\<close> on the application's logger, with its arguments.
\<close>

datatype wcall =
  WriteHeaderCall int
| WriteCall string

record world =
  Header :: "string \<rightharpoonup> string"
  wcalls :: "wcall list"
  writeErr :: "string option"
  logs :: "string list list"

definition HeaderSet :: "string \<Rightarrow> string \<Rightarrow> world \<Rightarrow> world" where
  "HeaderSet k v wd = wd\<lparr>Header := (Header wd)(k \<mapsto> v)\<rparr>"

definition WriteHeader :: "int \<Rightarrow> world \<Rightarrow> world" where
  "WriteHeader status wd = wd\<lparr>wcalls := wcalls wd @ [WriteHeaderCall status]\<rparr>"

definition Write :: "string \<Rightarrow> world \<Rightarrow> world \<times> string option" where
  "Write content wd = (wd\<lparr>wcalls := wcalls wd @ [WriteCall content]\<rparr>, writeErr wd)"

definition Println :: "string list \<Rightarrow> world \<Rightarrow> world" where
  "Println args wd = wd\<lparr>logs := logs wd @ [args]\<rparr>"

text \<open>The bytes written so far, and the status codes sent so far.\<close>

fun body :: "wcall list \<Rightarrow> string" where
  "body [] = []"
| "body (WriteCall b # cs) = b @ body cs"
| "body (WriteHeaderCall n # cs) = body cs"

fun statuses :: "wcall list \<Rightarrow> int list" where
  "statuses [] = []"
| "statuses (WriteHeaderCall n # cs) = n # statuses cs"
| "statuses (WriteCall b # cs) = statuses cs"

text \<open>\<^verbatim>\<open>strconv.Itoa\<close> on a length (never negative).\<close>

fun Itoa :: "nat \<Rightarrow> string" where
  "Itoa n =
     (if n < 10 then [char_of (48 + n)]
      else Itoa (n div 10) @ [char_of (48 + n mod 10)])"

declare Itoa.simps [simp del]

text \<open>The number a string of decimal digits stands for.\<close>

definition decimal :: "string \<Rightarrow> nat" where
  "decimal s = foldl (\<lambda>a c. 10 * a + (of_char c - 48)) 0 s"

text \<open>
  Modelled from the spec: \<^verbatim>\<open>Action.Abort\<close> is a method of the repository that is not
  in route.go. The spec: "abort the request with HTTP 500 and a fixed "Server Error"
  body; response is considered complete". Abort sends the status and writes the body on
  the action's response writer, which is the one \<^verbatim>\<open>DoCr\<close> was given.
\<close>

definition Abort :: "int \<Rightarrow> string \<Rightarrow> world \<Rightarrow> world" where
  "Abort status content wd = fst (Write content (WriteHeader status wd))"

text \<open>
  Modelled from the spec: \<^verbatim>\<open>Action.SetHeader\<close> is a method of the repository that is
  not in route.go. The spec: "Set Content-Length to the byte length of the rendered
  body". SetHeader sets the header of that name on the action's response writer.
  \<^verbatim>\<open>Action.GetLogger\<close>, absent as well, gives the application's logger, on which
  \<^verbatim>\<open>DoCr\<close> also logs a failed write (line 182): \<open>Println\<close> above.
\<close>

definition SetHeader :: "string \<Rightarrow> string \<Rightarrow> world \<Rightarrow> world" where
  "SetHeader k v wd = HeaderSet k v wd"

text \<open>
  The value \<^verbatim>\<open>c\<close> of type \<^verbatim>\<open>Action\<close> that \<^verbatim>\<open>DoCr\<close> builds (lines 115-118): the
  request, the application and \<open>T\<close>, the copy of \<^verbatim>\<open>VarMaps\<close>. Its response writer is the
  one \<^verbatim>\<open>DoCr\<close> writes to.
\<close>

record Action =
  Request :: Request
  App :: App
  T :: "string \<rightharpoonup> string"

text \<open>
  What \<^verbatim>\<open>DoCr\<close> calls outside route.go. \<open>'i\<close> is the state of the handler instance
  \<^verbatim>\<open>vc\<close>. From net/http: \<open>ParseForm\<close> and \<open>ParseMultipartForm\<close>, which give the
  \<^verbatim>\<open>req.Form\<close> they leave in the request (their errors are dropped by \<^verbatim>\<open>DoCr\<close>).
  From reflect: \<open>TypeString\<close> (\<^verbatim>\<open>Type.String\<close>), \<open>New\<close>, \<open>FieldByName\<close> (whether the
  field is valid), \<open>SetAction\<close> and \<open>SetC\<close> (the two \<^verbatim>\<open>Set\<close> calls), and
  \<open>MethodByName\<close>: \<open>None\<close> when the method is not valid, otherwise what calling it with
  the arguments does: the arguments as the call leaves them (a slice argument shares its
  elements with the caller, so the callee can replace them), and the instance, the
  response writer and the logger after the call (a hook's results are dropped by
  \<^verbatim>\<open>DoCr\<close>; a hook is taken to return). From the repository,
  absent from route.go: the constant \<open>XSRF_TAG\<close>, \<open>StructMap\<close>, and \<open>safelyCall\<close>,
  which returns the results and the error (\<open>None\<close> for \<^verbatim>\<open>nil\<close>) besides its effects.
  \<open>ServeStatic\<close> stands for \<^verbatim>\<open>staticHandler.Do\<close> (lines 23-60), which only calls the
  file system, net/http and functions absent from route.go.
\<close>

record ('t, 'i) env =
  XSRF_TAG :: string
  ParseForm :: "Request \<Rightarrow> string \<Rightarrow> string list"
  ParseMultipartForm :: "int \<Rightarrow> Request \<Rightarrow> string \<Rightarrow> string list"
  TypeString :: "'t \<Rightarrow> string"
  New :: "'t \<Rightarrow> 'i"
  FieldByName :: "'t \<Rightarrow> string \<Rightarrow> bool"
  SetAction :: "Action \<Rightarrow> 'i \<Rightarrow> 'i"
  SetC :: "'i \<Rightarrow> 'i"
  StructMap :: "Request \<Rightarrow> 'i \<Rightarrow> 'i"
  MethodByName ::
    "'t \<Rightarrow> string \<Rightarrow> (val list \<Rightarrow> 'i \<times> world \<Rightarrow> val list \<times> ('i \<times> world)) option"
  safelyCall ::
    "'t \<Rightarrow> string \<Rightarrow> val list \<Rightarrow> 'i \<times> world \<Rightarrow> (val list \<times> string option) \<times> ('i \<times> world)"
  ServeStatic :: "App \<Rightarrow> Request \<Rightarrow> world \<Rightarrow> world"

text \<open>
  The calls \<^verbatim>\<open>DoCr\<close> makes on the request, on reflect and on the instance, in order.
\<close>

datatype call =
  CallParseMultipartForm int
| CallParseForm
| CallNew
| CallStructMap
| CallInit
| CallBefore
| CallSafelyCall string "val list"
| CallAfter

text \<open>Lines 80-85: the form is parsed, by the parser the Content-Type selects.\<close>

definition parseBody :: "('t, 'i) env \<Rightarrow> App \<Rightarrow> Request \<Rightarrow> call list \<times> Request" where
  "parseBody E a req =
     (if Contains (ContentType req) ''multipart/form-data''
      then ([CallParseMultipartForm (MaxUploadSize a)],
            req\<lparr>Form := ParseMultipartForm E (MaxUploadSize a) req\<rparr>)
      else ([CallParseForm], req\<lparr>Form := ParseForm E req\<rparr>))"

text \<open>
  Lines 97-103: the condition under which the CSRF check fails. \<^verbatim>\<open>req.Cookie\<close> gives
  the first cookie of that name or an error; \<open>formVal\<close> is the first value of the form
  field, or the empty string.
\<close>

definition xsrfFails :: "('t, 'i) env \<Rightarrow> Request \<Rightarrow> bool" where
  "xsrfFails E req =
     (let res = map_of (Cookies req) (XSRF_TAG E);
          formVals = Form req (XSRF_TAG E);
          formVal = (case formVals of [] \<Rightarrow> [] | v # _ \<Rightarrow> v)
      in case res of None \<Rightarrow> True | Some v \<Rightarrow> v = [] \<or> v \<noteq> formVal)"

text \<open>Lines 114-129: the instance is allocated, injected and bound.\<close>

definition construct :: "('t, 'i) env \<Rightarrow> ('rx, 't) actionHandler \<Rightarrow> Request \<Rightarrow> 'i" where
  "construct E h req =
     (let vc = New E (ctype h);
          c = \<lparr>Request = req, App = app h, T = VarMaps (app h)\<rparr>;
          vc = (if FieldByName E (ctype h) ''Action'' then SetAction E c vc else vc);
          vc = (if FieldByName E (ctype h) ''C'' then SetC E vc else vc)
      in StructMap E req vc)"

text \<open>
  A hook is called when \<^verbatim>\<open>MethodByName\<close> finds it (\<^verbatim>\<open>initM.IsValid()\<close>), and the call
  is recorded; the result is the calls made, the arguments after the call and the state.
\<close>

definition callHook ::
  "('t, 'i) env \<Rightarrow> 't \<Rightarrow> string \<Rightarrow> call \<Rightarrow> val list \<Rightarrow> 'i \<times> world
     \<Rightarrow> call list \<times> val list \<times> ('i \<times> world)" where
  "callHook E ct name ev args st =
     (case MethodByName E ct name of
        Some f \<Rightarrow> ([ev], f args st)
      | None \<Rightarrow> ([], args, st))"

text \<open>
  Lines 110-146: from the arguments to the return of \<^verbatim>\<open>safelyCall\<close>. The result is
  the calls made, what \<^verbatim>\<open>safelyCall\<close> returned, and the state it left.
\<close>

definition DoCr_invoke ::
  "('t, 'i) env \<Rightarrow> ('rx, 't) actionHandler \<Rightarrow> Request \<Rightarrow> string list \<Rightarrow> world
     \<Rightarrow> call list \<times> (val list \<times> string option) \<times> ('i \<times> world)" where
  "DoCr_invoke E h req match wd =
     (let args = map VString match;
          vc = construct E h req;
          (t1, a1, st1) = callHook E (ctype h) ''Init'' CallInit [] (vc, wd);
          structName = VString (TypeString E (ctype h));
          actionName = VString (handler h);
          (t2, a2, st2) = callHook E (ctype h) ''Before'' CallBefore [structName, actionName] st1;
          (res, st3) = safelyCall E (ctype h) (handler h) args st2
      in ([CallNew, CallStructMap] @ t1 @ t2 @ [CallSafelyCall (handler h) args], res, st3))"

text \<open>Lines 179-184: the Content-Length header and the write of the body.\<close>

definition writeContent :: "string \<Rightarrow> world \<Rightarrow> world" where
  "writeContent content wd =
     (let wd1 = SetHeader ''Content-Length'' (Itoa (length content)) wd;
          (wd2, err) = Write content wd1
      in case err of
           Some e \<Rightarrow> Println [''Error during write: '', e] wd2
         | None \<Rightarrow> wd2)"

text \<open>Lines 162-184: the result is rendered.\<close>

definition render :: "val list \<Rightarrow> world \<Rightarrow> world" where
  "render ret wd =
     (case ret of
        [] \<Rightarrow> wd
      | sval # _ \<Rightarrow>
          (case sval of
             VString s \<Rightarrow> writeContent s wd
           | VBytes b \<Rightarrow> writeContent b wd
           | VError e \<Rightarrow> Abort 500 ''Server Error'' (Println [e] wd)
           | _ \<Rightarrow> writeContent [] wd))"

text \<open>
  The slice \<^verbatim>\<open>ret\<close> once the After hook has returned. The hook is given
  \<^verbatim>\<open>reflect.ValueOf(ret)\<close> as its third argument (line 157), which is the slice itself:
  the hook can replace its elements, not change its length, and \<^verbatim>\<open>DoCr\<close> reads
  \<^verbatim>\<open>ret[0]\<close> afterwards (line 166).
\<close>

definition afterRet :: "val list \<Rightarrow> val list \<Rightarrow> val list" where
  "afterRet ret args =
     (case args of
        [a, b, VValues new] \<Rightarrow> take (length ret) new @ drop (length new) ret
      | _ \<Rightarrow> ret)"

text \<open>
  Lines 147-184: what \<^verbatim>\<open>DoCr\<close> does with the return of \<^verbatim>\<open>safelyCall\<close>.
\<close>

definition DoCr_finish ::
  "('t, 'i) env \<Rightarrow> ('rx, 't) actionHandler
     \<Rightarrow> call list \<times> (val list \<times> string option) \<times> ('i \<times> world) \<Rightarrow> call list \<times> world" where
  "DoCr_finish E h called =
     (case called of (t, (ret, err), st) \<Rightarrow>
        (case err of
           Some e \<Rightarrow> (t, Abort 500 ''Server Error'' (Println [e] (snd st)))
         | None \<Rightarrow>
             (let structName = VString (TypeString E (ctype h));
                  actionName = VString (handler h);
                  (t3, args, st') = callHook E (ctype h) ''After'' CallAfter
                                      [structName, actionName, VValues ret] st
              in (t @ t3, render (afterRet ret args) (snd st')))))"

text \<open>
  \<^verbatim>\<open>actionHandler.DoCr\<close>: the calls it made and the response writer and logger it
  leaves. Its Go result is always \<^verbatim>\<open>nil\<close>.
\<close>

definition DoCr ::
  "('t, 'i) env \<Rightarrow> ('rx, 't) actionHandler \<Rightarrow> Request \<Rightarrow> string list \<Rightarrow> world
     \<Rightarrow> call list \<times> world" where
  "DoCr E h req match wd =
     (let a = app h;
          (t0, req) = parseBody E a req;
          wd = HeaderSet ''Content-Type'' ''text/html; charset=utf-8'' wd
      in if CheckXrsf a \<and> Method req = ''POST'' \<and> xsrfFails E req
         then (t0, fst (Write ''xrsf error.'' (WriteHeader 500 wd)))
         else after t0 (DoCr_finish E h (DoCr_invoke E h req match wd)))"

text \<open>\<^verbatim>\<open>Do\<close> of the two handlers (lines 23 and 70).\<close>

definition Do :: "('t, 'i) env \<Rightarrow> ('rx, 't) handler \<Rightarrow> Request \<Rightarrow> world \<Rightarrow> call list \<times> world" where
  "Do E h req wd =
     (case h of
        StaticHandler a \<Rightarrow> ([], ServeStatic E a req wd)
      | ActionHandler ah \<Rightarrow> DoCr E ah req [] wd)"

text \<open>
  \<^verbatim>\<open>Routes.handle\<close>: the two default headers (\<open>date\<close> is \<^verbatim>\<open>webTime\<close> of the current
  time), then the selected call is run. \<open>Inl\<close> is a panic.
\<close>

definition handle ::
  "'rx stdlib \<Rightarrow> ('t, 'i) env \<Rightarrow> ('rx, 't) Routes \<Rightarrow> string \<Rightarrow> Request \<Rightarrow> world
     \<Rightarrow> string + call list \<times> world" where
  "handle L E r date req wd =
     (let wd = HeaderSet ''Server'' ''xweb'' wd;
          wd = HeaderSet ''Date'' date wd
      in case snd (handle_route L r req) of
           CallDo h \<Rightarrow> Inr (Do E h req wd)
         | CallDoCr h caps \<Rightarrow> Inr (DoCr E h req caps wd)
         | NotFound \<Rightarrow> Inr ([], wd)
         | Panic msg \<Rightarrow> Inl msg)"


subsection \<open>A regexp engine, path.Join and a handler type to run the model on\<close>

text \<open>
  The theorems below hold for every implementation of \<open>stdlib\<close> and \<open>env\<close>. To run
  the model on concrete requests, here is an engine for a fragment of Go's regular
  expressions: literals, \<^verbatim>\<open>.\<close> (any character but newline), \<^verbatim>\<open>\d\<close>, escaped
  punctuation, capture groups, \<^verbatim>\<open>|\<close>, and the operators \<^verbatim>\<open>*\<close>, \<^verbatim>\<open>+\<close>, \<^verbatim>\<open>?\<close> with
  their non-greedy forms. Go's errors for an unclosed or unopened group, for a repetition
  without operand, for a doubled repetition and for a trailing backslash are reported;
  syntax outside the fragment (classes, anchors, counted repetition, flagged groups,
  other escapes) is refused as unsupported. Matching is leftmost-first, as in Go: the
  first start position with a match, alternatives from the left, a greedy repetition
  taking as much as it can.
\<close>

datatype rx =
  Empty
| Lit char
| AnyNotNL
| Digit
| Seq rx rx
| Alt rx rx
| Star bool rx
| Group nat rx

record Regexp =
  prog :: rx
  numSubexp :: nat

text \<open>
  The parser keeps a stack of open groups; a frame is the group's index (\<open>None\<close> at the
  bottom), the alternatives closed so far and the items of the current one, both
  newest first.
\<close>

type_synonym frame = "nat option \<times> rx list \<times> rx list"

definition mkSeq :: "rx list \<Rightarrow> rx" where
  "mkSeq rev_items = foldl (\<lambda>acc r. Seq r acc) Empty rev_items"

definition mkAlt :: "rx list \<Rightarrow> rx" where
  "mkAlt rev_alts =
     (case rev_alts of [] \<Rightarrow> Empty | a # as \<Rightarrow> foldl (\<lambda>acc r. Alt r acc) a as)"

definition closeFrame :: "rx list \<Rightarrow> rx list \<Rightarrow> rx" where
  "closeFrame alts cur = mkAlt (mkSeq cur # alts)"

definition repeat :: "char \<Rightarrow> bool \<Rightarrow> rx \<Rightarrow> rx" where
  "repeat op greedy x =
     (if op = CHR ''*'' then Star greedy x
      else if op = CHR ''+'' then Seq x (Star greedy x)
      else if greedy then Alt x Empty else Alt Empty x)"

definition isAlnum :: "char \<Rightarrow> bool" where
  "isAlnum c =
     (let n = of_char c :: nat
      in (48 \<le> n \<and> n \<le> 57) \<or> (65 \<le> n \<and> n \<le> 90) \<or> (97 \<le> n \<and> n \<le> 122))"

fun parse :: "frame list \<Rightarrow> nat \<Rightarrow> bool \<Rightarrow> string \<Rightarrow> string + (rx \<times> nat)" where
  "parse fs n lr [] =
     (case fs of
        [(None, alts, cur)] \<Rightarrow> Inr (closeFrame alts cur, n)
      | _ \<Rightarrow> Inl ''missing closing )'')"
| "parse fs n lr (c # cs) =
     (case fs of
        [] \<Rightarrow> Inl ''internal error''
      | (g, alts, cur) # fs' \<Rightarrow>
          if c = CHR ''('' then
            (case cs of
               d # _ \<Rightarrow> if d = CHR ''?'' then Inl ''unsupported''
                        else parse ((Some n, [], []) # fs) (Suc n) False cs
             | [] \<Rightarrow> parse ((Some n, [], []) # fs) (Suc n) False cs)
          else if c = CHR '')'' then
            (case (g, fs') of
               (Some i, (g', alts', cur') # fs'') \<Rightarrow>
                  parse ((g', alts', Group i (closeFrame alts cur) # cur') # fs'') n False cs
             | _ \<Rightarrow> Inl ''unexpected )'')
          else if c = CHR ''|'' then parse ((g, mkSeq cur # alts, []) # fs') n False cs
          else if c = CHR ''*'' \<or> c = CHR ''+'' \<or> c = CHR ''?'' then
            (case cur of
               [] \<Rightarrow> Inl ''missing argument to repetition operator''
             | x # cur' \<Rightarrow>
                 if lr then Inl ''invalid nested repetition operator''
                 else (case cs of
                         d # cs' \<Rightarrow>
                           if d = CHR ''?''
                           then parse ((g, alts, repeat c False x # cur') # fs') n True cs'
                           else parse ((g, alts, repeat c True x # cur') # fs') n True cs
                       | [] \<Rightarrow> parse ((g, alts, repeat c True x # cur') # fs') n True cs))
          else if c = CHR 0x5C then
            (case cs of
               [] \<Rightarrow> Inl ''trailing backslash at end of expression''
             | d # cs' \<Rightarrow>
                 if d = CHR ''d'' then parse ((g, alts, Digit # cur) # fs') n False cs'
                 else if \<not> isAlnum d \<and> (of_char d :: nat) < 128
                 then parse ((g, alts, Lit d # cur) # fs') n False cs'
                 else Inl ''unsupported'')
          else if c = CHR ''.'' then parse ((g, alts, AnyNotNL # cur) # fs') n False cs
          else if c = CHR ''['' \<or> c = CHR ''{'' \<or> c = CHR ''^'' \<or> c = CHR ''$''
          then Inl ''unsupported''
          else parse ((g, alts, Lit c # cur) # fs') n False cs)"

definition goCompile :: "string \<Rightarrow> string + Regexp" where
  "goCompile s =
     (case parse [(None, [], [])] 0 False s of
        Inl e \<Rightarrow> Inl e
      | Inr (r, n) \<Rightarrow> Inr \<lparr>prog = r, numSubexp = n\<rparr>)"

text \<open>
  \<open>run r s c\<close>: every way \<open>r\<close> matches a prefix of \<open>s\<close>, as the rest of \<open>s\<close> and the
  captures, the preferred way first. An iteration of a repetition that consumes nothing
  is not repeated.
\<close>

fun run :: "rx \<Rightarrow> string \<Rightarrow> string list \<Rightarrow> (string \<times> string list) list" where
  "run Empty s c = [(s, c)]"
| "run (Lit a) s c = (case s of [] \<Rightarrow> [] | x # xs \<Rightarrow> if x = a then [(xs, c)] else [])"
| "run AnyNotNL s c =
     (case s of [] \<Rightarrow> [] | x # xs \<Rightarrow> if x = CHR 0x0A then [] else [(xs, c)])"
| "run Digit s c =
     (case s of
        [] \<Rightarrow> []
      | x # xs \<Rightarrow>
          if 48 \<le> (of_char x :: nat) \<and> (of_char x :: nat) \<le> 57 then [(xs, c)] else [])"
| "run (Seq r1 r2) s c = concat (map (\<lambda>(s', c'). run r2 s' c') (run r1 s c))"
| "run (Alt r1 r2) s c = run r1 s c @ run r2 s c"
| "run (Group i r) s c =
     map (\<lambda>(s', c'). (s', c'[i := take (length s - length s') s])) (run r s c)"
| "run (Star g r) s c =
     (let more = concat (map (\<lambda>(s', c').
                   if length s' < length s then run (Star g r) s' c' else [])
                   (run r s c))
      in if g then more @ [(s, c)] else (s, c) # more)"

text \<open>The leftmost match: the whole match, then the text of each group.\<close>

fun findFrom :: "Regexp \<Rightarrow> string \<Rightarrow> string list" where
  "findFrom re s =
     (case run (prog re) s (replicate (numSubexp re) []) of
        (rest, caps) # _ \<Rightarrow> take (length s - length rest) s # caps
      | [] \<Rightarrow> (case s of [] \<Rightarrow> [] | _ # s' \<Rightarrow> findFrom re s'))"

declare findFrom.simps [simp del]

text \<open>
  \<^verbatim>\<open>path.Clean\<close> and \<^verbatim>\<open>path.Join\<close> of two elements, after their documentation: empty
  elements are dropped, the rest joined by a slash and cleaned (no empty or \<^verbatim>\<open>.\<close>
  element, \<^verbatim>\<open>..\<close> removes the element before it, and is dropped at the root).
\<close>

fun splitSlash :: "string \<Rightarrow> string list" where
  "splitSlash [] = [[]]"
| "splitSlash (c # s) =
     (if c = CHR ''/'' then [] # splitSlash s
      else (case splitSlash s of e # es \<Rightarrow> (c # e) # es | [] \<Rightarrow> [[c]]))"

fun cleanElems :: "bool \<Rightarrow> string list \<Rightarrow> string list \<Rightarrow> string list" where
  "cleanElems rooted acc [] = rev acc"
| "cleanElems rooted acc (e # es) =
     (if e = [] \<or> e = ''.'' then cleanElems rooted acc es
      else if e = ''..'' then
        (case acc of
           x # acc' \<Rightarrow> if x = ''..'' then cleanElems rooted (e # acc) es
                       else cleanElems rooted acc' es
         | [] \<Rightarrow> if rooted then cleanElems rooted acc es else cleanElems rooted (e # acc) es)
      else cleanElems rooted (e # acc) es)"

fun joinSlash :: "string list \<Rightarrow> string" where
  "joinSlash [] = []"
| "joinSlash [e] = e"
| "joinSlash (e # es) = e @ ''/'' @ joinSlash es"

definition Clean :: "string \<Rightarrow> string" where
  "Clean p =
     (let rooted = (case p of c # _ \<Rightarrow> c = CHR ''/'' | [] \<Rightarrow> False);
          out = (if rooted then ''/'' else []) @ joinSlash (cleanElems rooted [] (splitSlash p))
      in if out = [] then ''.'' else out)"

definition goJoin :: "string \<Rightarrow> string \<Rightarrow> string" where
  "goJoin a b =
     (if a = [] \<and> b = [] then [] else if a = [] then Clean b else Clean (a @ ''/'' @ b))"

definition gostd :: "Regexp stdlib" where
  "gostd = \<lparr>Compile = goCompile,
            MatchString = (\<lambda>re s. findFrom re s \<noteq> []),
            FindStringSubmatch = findFrom,
            Join = goJoin\<rparr>"

text \<open>
  Handler types to run the dispatcher on. The instance state is the list of calls it has
  seen. Every type has the field \<^verbatim>\<open>Action\<close>, a Before hook and an After hook that sets
  a response header; the method \<^verbatim>\<open>Index\<close> returns the string \<^verbatim>\<open>ok\<close>, and every other
  method faults. The Before hook of the type \<^verbatim>\<open>Chatty\<close> writes \<^verbatim>\<open>pre\<close> to the response;
  the After hook of the type \<^verbatim>\<open>Rewriter\<close> replaces every element of the result slice
  by the string \<^verbatim>\<open>changed\<close>.
\<close>

definition demoEnv :: "(string, string list) env" where
  "demoEnv =
     \<lparr>XSRF_TAG = ''_xsrf'',
      ParseForm = Form,
      ParseMultipartForm = (\<lambda>n. Form),
      TypeString = (\<lambda>t. t),
      New = (\<lambda>t. []),
      FieldByName = (\<lambda>t f. f = ''Action''),
      SetAction = (\<lambda>c vc. vc @ [''Action'']),
      SetC = (\<lambda>vc. vc @ [''C'']),
      StructMap = (\<lambda>req vc. vc @ [''StructMap'']),
      MethodByName = (\<lambda>t name.
        if name = ''Before''
        then Some (\<lambda>args (vc, wd).
               (args, (vc @ [''Before''],
                       if t = ''Chatty'' then fst (Write ''pre'' wd) else wd)))
        else if name = ''After''
        then Some (\<lambda>args (vc, wd).
               (if t = ''Rewriter''
                then (case args of
                        [a, b, VValues r] \<Rightarrow> [a, b, VValues (map (\<lambda>v. VString ''changed'') r)]
                      | _ \<Rightarrow> args)
                else args,
                (vc @ [''After''], HeaderSet ''X-After'' ''1'' wd)))
        else None),
      safelyCall = (\<lambda>t name args (vc, wd).
        if name = ''Index'' then (([VString ''ok''], None), (vc @ [''Index''], wd))
        else (([], Some ''Handler crashed''), (vc @ [name], wd))),
      ServeStatic = (\<lambda>a req wd. wd)\<rparr>"

definition demoApp :: App where
  "demoApp = \<lparr>CheckXrsf = True, MaxUploadSize = 1024, VarMaps = Map.empty\<rparr>"

definition emptyWorld :: world where
  "emptyWorld = \<lparr>Header = Map.empty, wcalls = [], writeErr = None, logs = []\<rparr>"

definition request :: "string \<Rightarrow> string \<Rightarrow> Request" where
  "request m p = \<lparr>Method = m, URL_Path = p, ContentType = [], Cookies = [], Form = (\<lambda>k. [])\<rparr>"


text \<open>
  A route table built by the registration functions, in this order: the exact route
  \<^verbatim>\<open>/\<close>; the patterns \<^verbatim>\<open>/files/(.*)\<close>, \<^verbatim>\<open>/user/(.*)\<close> and \<^verbatim>\<open>/user/(\d*)\<close>; the exact
  route \<^verbatim>\<open>/user/42\<close>; two static files under \<^verbatim>\<open>/docs\<close>.
\<close>

definition userDigits :: string where
  "userDigits = ''/user/('' @ [CHR 0x5C] @ ''d*)''"

definition userPlus :: string where
  "userPlus = ''/user/('' @ [CHR 0x5C] @ ''d+)''"

definition demoRoutes :: "(Regexp, string) Routes" where
  "demoRoutes =
     (let r = NewRoutes demoApp [''index.htm'', ''index.html'', ''default.html''];
          r = snd (addAction gostd ''/'' Map.empty ''Main'' ''Index'' r);
          r = snd (addAction gostd ''/files/(.*)'' Map.empty ''Files'' ''Get'' r);
          r = snd (addAction gostd ''/user/(.*)'' Map.empty ''User'' ''Any'' r);
          r = snd (addAction gostd userDigits [''GET'' \<mapsto> True] ''User'' ''Show'' r);
          r = snd (addAction gostd ''/user/42'' [''GET'' \<mapsto> True] ''User'' ''Answer'' r);
          r = snd (addStatic ''/docs/index.html'' (StaticHandler demoApp) r);
          r = snd (addStatic ''/docs/default.html'' (StaticHandler demoApp) r)
      in r)"

definition compiled :: "string \<Rightarrow> Regexp option" where
  "compiled s = (case goCompile s of Inl e \<Rightarrow> None | Inr re \<Rightarrow> Some re)"

definition filesGet :: "(Regexp, string) actionHandler" where
  "filesGet = \<lparr>app = demoApp, methods = Map.empty, cr = compiled ''/files/(.*)'',
               ctype = ''Files'', handler = ''Get''\<rparr>"

definition userAny :: "(Regexp, string) actionHandler" where
  "userAny = \<lparr>app = demoApp, methods = Map.empty, cr = compiled ''/user/(.*)'',
              ctype = ''User'', handler = ''Any''\<rparr>"

definition userShow :: "(Regexp, string) actionHandler" where
  "userShow = \<lparr>app = demoApp, methods = [''GET'' \<mapsto> True], cr = compiled userDigits,
               ctype = ''User'', handler = ''Show''\<rparr>"

definition userAnswer :: "(Regexp, string) actionHandler" where
  "userAnswer = \<lparr>app = demoApp, methods = [''GET'' \<mapsto> True], cr = None,
                 ctype = ''User'', handler = ''Answer''\<rparr>"

definition mainIndex :: "(Regexp, string) actionHandler" where
  "mainIndex = \<lparr>app = demoApp, methods = Map.empty, cr = None,
                ctype = ''Main'', handler = ''Index''\<rparr>"

definition chattyIndex :: "(Regexp, string) actionHandler" where
  "chattyIndex = \<lparr>app = demoApp, methods = Map.empty, cr = None,
                  ctype = ''Chatty'', handler = ''Index''\<rparr>"

definition rewriterIndex :: "(Regexp, string) actionHandler" where
  "rewriterIndex = \<lparr>app = demoApp, methods = Map.empty, cr = None,
                    ctype = ''Rewriter'', handler = ''Index''\<rparr>"

subsection \<open>Predicates of the statements\<close>

text \<open>
  What the loop over \<^verbatim>\<open>rgRoutes\<close> decides for one entry and a path: it \<open>accepts\<close> the
  path (both tests of lines 255 and 260 pass) or \<open>rejects\<close> it (one of them fails and the
  loop goes on); otherwise the entry makes the loop panic. \<open>captures\<close> is
  \<^verbatim>\<open>match[1:]\<close>.
\<close>

definition accepts :: "'rx stdlib \<Rightarrow> ('rx, 't) actionHandler \<Rightarrow> string \<Rightarrow> bool" where
  "accepts L h p =
     (case cr h of
        None \<Rightarrow> False
      | Some re \<Rightarrow>
          MatchString L re p \<and>
          (case FindStringSubmatch L re p of [] \<Rightarrow> False | m0 # _ \<Rightarrow> length m0 = length p))"

definition rejects :: "'rx stdlib \<Rightarrow> ('rx, 't) actionHandler \<Rightarrow> string \<Rightarrow> bool" where
  "rejects L h p =
     (case cr h of
        None \<Rightarrow> False
      | Some re \<Rightarrow>
          \<not> MatchString L re p \<or>
          (case FindStringSubmatch L re p of [] \<Rightarrow> False | m0 # _ \<Rightarrow> length m0 \<noteq> length p))"

definition captures :: "'rx stdlib \<Rightarrow> ('rx, 't) actionHandler \<Rightarrow> string \<Rightarrow> string list" where
  "captures L h p = (case cr h of None \<Rightarrow> [] | Some re \<Rightarrow> tl (FindStringSubmatch L re p))"

text \<open>
  The same route table with the allowed-methods set of every action handler replaced,
  and the same dispatch with the handler's set replaced.
\<close>

definition setMethods :: "(string \<rightharpoonup> bool) \<Rightarrow> ('rx, 't) handler \<Rightarrow> ('rx, 't) handler" where
  "setMethods ms h =
     (case h of
        StaticHandler a \<Rightarrow> StaticHandler a
      | ActionHandler ah \<Rightarrow> ActionHandler (ah\<lparr>methods := ms\<rparr>))"

definition withMethods :: "(string \<rightharpoonup> bool) \<Rightarrow> ('rx, 't) Routes \<Rightarrow> ('rx, 't) Routes" where
  "withMethods ms r =
     r\<lparr>mapRoutes := (\<lambda>k. map_option (setMethods ms) (mapRoutes r k)),
       rgRoutes := map (\<lambda>h. h\<lparr>methods := ms\<rparr>) (rgRoutes r)\<rparr>"

definition dispatchWithMethods ::
  "(string \<rightharpoonup> bool) \<Rightarrow> ('rx, 't) dispatch \<Rightarrow> ('rx, 't) dispatch" where
  "dispatchWithMethods ms d =
     (case d of
        CallDo h \<Rightarrow> CallDo (setMethods ms h)
      | CallDoCr h caps \<Rightarrow> CallDoCr (h\<lparr>methods := ms\<rparr>) caps
      | NotFound \<Rightarrow> NotFound
      | Panic msg \<Rightarrow> Panic msg)"

section \<open>Properties\<close>

subsection \<open>The library functions written out here\<close>

text \<open>\<open>Itoa\<close> writes the decimal numeral of its argument.\<close>

lemma decimal_snoc: "decimal (s @ [c]) = 10 * decimal s + (of_char c - 48)"
  by (simp add: decimal_def)

lemma digit_char: "d < 10 \<Longrightarrow> (of_char (char_of (48 + d :: nat)) :: nat) = 48 + d"
  by (simp add: of_char_of [where ?'a = nat])

lemma decimal_Itoa: "decimal (Itoa n) = n"
proof (induction n rule: Itoa.induct)
  case (1 n)
  show ?case
  proof (cases "n < 10")
    case True
    then show ?thesis
      by (subst Itoa.simps) (simp add: decimal_def digit_char)
  next
    case False
    have "n mod 10 < 10" by simp
    then have d: "(of_char (char_of (48 + n mod 10)) :: nat) = 48 + n mod 10"
      by (rule digit_char)
    from False "1.IH" have "decimal (Itoa (n div 10)) = n div 10" by simp
    with False d show ?thesis
      by (subst Itoa.simps) (simp add: decimal_snoc)
  qed
qed

text \<open>
  The engine of the examples returns, as the whole match, a piece of the subject, and
  its \<open>MatchString\<close> agrees with its \<open>FindStringSubmatch\<close>.
\<close>

lemma findFrom_sublist: "findFrom re s = m0 # caps \<Longrightarrow> sublist m0 s"
proof (induction re s rule: findFrom.induct)
  case (1 re s)
  show ?case
  proof (cases "run (prog re) s (replicate (numSubexp re) [])")
    case Nil
    note none = this
    show ?thesis
    proof (cases s)
      case Nil
      with none "1.prems" show ?thesis
        by (simp add: findFrom.simps)
    next
      case (Cons x s')
      with none "1.prems" have "findFrom re s' = m0 # caps"
        by (simp add: findFrom.simps)
      with "1.IH" [OF none Cons] have "sublist m0 s'" by simp
      with Cons show ?thesis by (simp add: sublist_Cons_right)
    qed
  next
    case (Cons a list)
    with "1.prems" have "m0 = take (length s - length (fst a)) s"
      by (cases a) (simp add: findFrom.simps)
    then have "prefix m0 s" by (simp add: take_is_prefix)
    then show ?thesis by (rule prefix_imp_sublist)
  qed
qed

lemma gostd_sane:
  "MatchString gostd re s \<longleftrightarrow> FindStringSubmatch gostd re s \<noteq> []"
  "FindStringSubmatch gostd re s = m0 # caps \<Longrightarrow> sublist m0 s"
  by (simp_all add: gostd_def findFrom_sublist)

subsection \<open>The two loops of handle\<close>

lemma after_simps [simp]: "fst (after ps res) = ps @ fst res" "snd (after ps res) = snd res"
  by (simp_all add: after_def)

lemma rgLoop_selected:
  "snd (rgLoop L p i hs) = Some (CallDoCr h caps) \<Longrightarrow>
     h \<in> set hs \<and> accepts L h p \<and> caps = captures L h p"
proof (induction hs arbitrary: i)
  case Nil
  then show ?case by simp
next
  case (Cons g hs)
  show ?case
  proof (cases "accepts L g p")
    case True
    with Cons.prems show ?thesis
      by (auto simp: accepts_def captures_def split: option.splits list.splits)
  next
    case False
    with Cons.prems have "snd (rgLoop L p (Suc i) hs) = Some (CallDoCr h caps)"
      by (auto simp: accepts_def split: option.splits list.splits if_splits)
    from Cons.IH [OF this] show ?thesis by simp
  qed
qed

lemma indexLoop_no_DoCr: "snd (indexLoop L m p pages) \<noteq> Some (CallDoCr h caps)"
  by (induction pages) (auto split: option.splits simp: Let_def)

lemma rgLoop_rejects:
  "\<forall>g\<in>set pre. rejects L g p \<Longrightarrow>
     rgLoop L p i (pre @ hs) = after (fst (rgLoop L p i pre)) (rgLoop L p (i + length pre) hs)
     \<and> snd (rgLoop L p i pre) = None"
proof (induction pre arbitrary: i)
  case Nil
  then show ?case by (simp add: after_def)
next
  case (Cons g pre)
  from Cons.prems have g: "rejects L g p" and pre: "\<forall>g\<in>set pre. rejects L g p" by simp_all
  note IH = Cons.IH [OF pre, of "Suc i"]
  from g IH show ?case
    by (auto simp: rejects_def after_def split: option.splits list.splits)
qed

lemma rgLoop_accepts:
  "accepts L h p \<Longrightarrow>
     rgLoop L p i (h # hs) =
       ([MatchStringCall i, FindStringSubmatchCall i], Some (CallDoCr h (captures L h p)))"
  by (auto simp: accepts_def captures_def split: option.splits list.splits)

lemma indexLoop_miss:
  "\<forall>q\<in>set pre. m (Join L p q) = None \<Longrightarrow>
     indexLoop L m p (pre @ pages) =
       after (map (\<lambda>q. MapLookup (Join L p q)) pre) (indexLoop L m p pages)"
  by (induction pre) (auto simp: after_def Let_def)

lemma handle_route_unfold:
  "handle_route L r req =
     (case mapRoutes r (URL_Path req) of
        Some h \<Rightarrow> ([MapLookup (URL_Path req)], CallDo h)
      | None \<Rightarrow>
          (case snd (rgLoop L (URL_Path req) 0 (rgRoutes r)) of
             Some d \<Rightarrow> (MapLookup (URL_Path req) # fst (rgLoop L (URL_Path req) 0 (rgRoutes r)), d)
           | None \<Rightarrow>
               (MapLookup (URL_Path req) # fst (rgLoop L (URL_Path req) 0 (rgRoutes r)) @
                  fst (indexLoop L (mapRoutes r) (URL_Path req) (defaultIndex r)),
                case snd (indexLoop L (mapRoutes r) (URL_Path req) (defaultIndex r)) of
                  Some d \<Rightarrow> d
                | None \<Rightarrow> NotFound)))"
  by (simp add: handle_route_def Let_def split: option.splits prod.splits)

lemma first_accepting_selected:
  assumes "mapRoutes r (URL_Path req) = None"
    and "rgRoutes r = pre @ h # post"
    and "\<forall>g\<in>set pre. rejects L g (URL_Path req)"
    and "accepts L h (URL_Path req)"
  shows "snd (handle_route L r req) = CallDoCr h (captures L h (URL_Path req))"
proof -
  have "snd (rgLoop L (URL_Path req) 0 (rgRoutes r)) =
          Some (CallDoCr h (captures L h (URL_Path req)))"
    using rgLoop_rejects [OF assms(3), of 0 "h # post"] rgLoop_accepts [OF assms(4)] assms(2)
    by simp
  with assms(1) show ?thesis
    by (simp add: handle_route_unfold)
qed

text \<open>
  Registration keeps the entries of the pattern list where they are and puts a new one
  last; every entry it stores has a compiled expression.
\<close>

lemma addAction_appends: "prefix (rgRoutes r) (rgRoutes (snd (addAction L s ms ct an r)))"
  by (simp add: addAction_def Let_def split: sum.splits)

lemma addAction_compiled:
  "\<forall>h\<in>set (rgRoutes r). cr h \<noteq> None \<Longrightarrow>
     \<forall>h\<in>set (rgRoutes (snd (addAction L s ms ct an r))). cr h \<noteq> None"
  by (auto simp: addAction_def Let_def split: sum.splits)

lemma addStatic_rgRoutes: "rgRoutes (snd (addStatic s h r)) = rgRoutes r"
  by (simp add: addStatic_def)

subsection \<open>The stages of DoCr\<close>

lemma body_append [simp]: "body (cs @ ds) = body cs @ body ds"
  by (induction cs rule: body.induct) simp_all

lemma statuses_append [simp]: "statuses (cs @ ds) = statuses cs @ statuses ds"
  by (induction cs rule: statuses.induct) simp_all

lemma parseBody_request [simp]:
  "Method (snd (parseBody E a req)) = Method req"
  "Cookies (snd (parseBody E a req)) = Cookies req"
  "URL_Path (snd (parseBody E a req)) = URL_Path req"
  by (simp_all add: parseBody_def)

lemma parseBody_calls:
  "fst (parseBody E a req) = [CallParseForm] \<or>
   fst (parseBody E a req) = [CallParseMultipartForm (MaxUploadSize a)]"
  by (simp add: parseBody_def)


lemma DoCr_invoke_calls:
  "fst (DoCr_invoke E h req match wd) =
     [CallNew, CallStructMap] @
     fst (callHook E (ctype h) ''Init'' CallInit [] (construct E h req, wd)) @
     fst (callHook E (ctype h) ''Before'' CallBefore
            [VString (TypeString E (ctype h)), VString (handler h)]
            (snd (snd (callHook E (ctype h) ''Init'' CallInit [] (construct E h req, wd))))) @
     [CallSafelyCall (handler h) (map VString match)]"
  by (simp add: DoCr_invoke_def Let_def case_prod_beta)


lemma DoCr_unfold:
  "DoCr E h req match wd =
     (if CheckXrsf (app h) \<and> Method req = ''POST'' \<and> xsrfFails E (snd (parseBody E (app h) req))
      then (fst (parseBody E (app h) req),
            fst (Write ''xrsf error.''
              (WriteHeader 500 (HeaderSet ''Content-Type'' ''text/html; charset=utf-8'' wd))))
      else after (fst (parseBody E (app h) req))
             (DoCr_finish E h
                (DoCr_invoke E h (snd (parseBody E (app h) req)) match
                   (HeaderSet ''Content-Type'' ''text/html; charset=utf-8'' wd))))"
  by (simp add: DoCr_def Let_def case_prod_beta)

lemma DoCr_passed:
  assumes "\<not> (CheckXrsf (app h) \<and> Method req = ''POST'' \<and>
              xsrfFails E (snd (parseBody E (app h) req)))"
  shows "DoCr E h req match wd =
           after (fst (parseBody E (app h) req))
             (DoCr_finish E h
                (DoCr_invoke E h (snd (parseBody E (app h) req)) match
                   (HeaderSet ''Content-Type'' ''text/html; charset=utf-8'' wd)))"
  by (subst DoCr_unfold) (simp only: if_not_P [OF assms])

lemma afterRet_length: "length (afterRet ret args) = length ret"
  by (auto simp: afterRet_def split: list.splits val.splits)

lemma afterRet_untouched: "afterRet ret [a, b, VValues ret] = ret"
  by (simp add: afterRet_def)

lemma writeContent_effect:
  "Header (writeContent s wd) ''Content-Length'' = Some (Itoa (length s))"
  "wcalls (writeContent s wd) = wcalls wd @ [WriteCall s]"
  by (simp_all add: writeContent_def SetHeader_def HeaderSet_def Write_def Println_def Let_def
        split: option.splits)

subsection \<open>The allowed-methods sets\<close>

lemma rgLoop_methods:
  "rgLoop L p i (map (\<lambda>h. h\<lparr>methods := ms\<rparr>) hs) =
     (fst (rgLoop L p i hs), map_option (dispatchWithMethods ms) (snd (rgLoop L p i hs)))"
  by (induction hs arbitrary: i)
     (auto simp: dispatchWithMethods_def after_def split: option.splits list.splits)

lemma indexLoop_methods:
  "indexLoop L (\<lambda>k. map_option (setMethods ms) (m k)) p pages =
     (fst (indexLoop L m p pages), map_option (dispatchWithMethods ms) (snd (indexLoop L m p pages)))"
  by (induction pages)
     (auto simp: dispatchWithMethods_def after_def Let_def split: option.splits)

lemma handle_route_methods:
  "handle_route L (withMethods ms r) req =
     (fst (handle_route L r req), dispatchWithMethods ms (snd (handle_route L r req)))"
  by (auto simp: handle_route_unfold withMethods_def rgLoop_methods indexLoop_methods
        dispatchWithMethods_def split: option.splits)

lemma DoCr_invoke_methods:
  "DoCr_invoke E (h\<lparr>methods := ms\<rparr>) req match wd = DoCr_invoke E h req match wd"
  by (simp add: DoCr_invoke_def construct_def)

lemma DoCr_finish_methods: "DoCr_finish E (h\<lparr>methods := ms\<rparr>) res = DoCr_finish E h res"
  by (simp add: DoCr_finish_def split: prod.splits option.splits)

lemma DoCr_methods: "DoCr E (h\<lparr>methods := ms\<rparr>) req match wd = DoCr E h req match wd"
  by (simp add: DoCr_unfold DoCr_invoke_methods DoCr_finish_methods)

lemma Do_methods: "Do E (setMethods ms h) req wd = Do E h req wd"
  by (cases h) (simp_all add: Do_def setMethods_def DoCr_methods)

subsection \<open>Running the route table\<close>

lemmas demo_defs = demoRoutes_def NewRoutes_def addAction_def addStatic_def gostd_def
  ContainsAny_def goCompile_def userDigits_def userPlus_def compiled_def
  filesGet_def userAny_def userShow_def userAnswer_def mainIndex_def
  closeFrame_def mkSeq_def mkAlt_def repeat_def isAlnum_def request_def demoApp_def
  goJoin_def Clean_def findFrom.simps

lemma demo_rgRoutes: "rgRoutes demoRoutes = [filesGet, userAny, userShow]"
  by (simp add: demo_defs)

lemma demo_mapRoutes:
  "mapRoutes demoRoutes =
     [''/'' \<mapsto> ActionHandler mainIndex,
      ''/user/42'' \<mapsto> ActionHandler userAnswer,
      ''/docs/index.html'' \<mapsto> StaticHandler demoApp,
      ''/docs/default.html'' \<mapsto> StaticHandler demoApp]"
  by (simp add: demo_defs)

lemma demo_defaultIndex: "defaultIndex demoRoutes = [''index.htm'', ''index.html'', ''default.html'']"
  by (simp add: demo_defs)

lemma demo_user_123:
  "rejects gostd filesGet ''/user/123''"
  "accepts gostd userAny ''/user/123''"
  "accepts gostd userShow ''/user/123''"
  "captures gostd userAny ''/user/123'' = [''123'']"
  by (simp_all add: rejects_def accepts_def captures_def demo_defs)

lemma demo_user_42:
  "accepts gostd userAny ''/user/42''"
  "accepts gostd userShow ''/user/42''"
  by (simp_all add: accepts_def demo_defs)

lemma demo_docs:
  "rejects gostd filesGet ''/docs''"
  "rejects gostd userAny ''/docs''"
  "rejects gostd userShow ''/docs''"
  "Join gostd ''/docs'' ''index.htm'' = ''/docs/index.htm''"
  "Join gostd ''/docs'' ''index.html'' = ''/docs/index.html''"
  by (simp_all add: rejects_def demo_defs)

text \<open>
  The example of the specification: \<^verbatim>\<open>/user/(\d+)\<close> against \<^verbatim>\<open>/user/123/extra\<close>. As
  an entry of the pattern list its match is \<^verbatim>\<open>/user/123\<close>, nine characters of fifteen,
  and the entry is passed over. Registered with addAction, the source has no \<^verbatim>\<open>*\<close> or
  \<^verbatim>\<open>?\<close> and becomes an exact route, which this path does not hit either.
\<close>

lemma example_prefix_match_passed_over:
  "FindStringSubmatch gostd (the (compiled userPlus)) ''/user/123/extra'' = [''/user/123'', ''123'']"
  "handle_route gostd
     ((NewRoutes demoApp [])\<lparr>rgRoutes :=
        [\<lparr>app = demoApp, methods = Map.empty, cr = compiled userPlus,
          ctype = ''User'', handler = ''Show''\<rparr>]\<rparr>)
     (request ''GET'' ''/user/123/extra'') =
   ([MapLookup ''/user/123/extra'', MatchStringCall 0, FindStringSubmatchCall 0], NotFound)"
  "handle_route gostd
     (snd (addAction gostd userPlus Map.empty ''User'' ''Show'' (NewRoutes demoApp [])))
     (request ''GET'' ''/user/123/extra'') =
   ([MapLookup ''/user/123/extra''], NotFound)"
  by (simp_all add: handle_route_unfold demo_defs)


subsection \<open>Claims about the router\<close>

text \<open>
  C1. The router selects a pattern route only if the match of its compiled pattern spans
  the entire request path. Whenever \<^verbatim>\<open>handle\<close> ends in \<^verbatim>\<open>DoCr\<close> on an entry of the
  pattern list, that entry's expression matched the path, the whole match \<^verbatim>\<open>match[0]\<close>
  has the length of the path, and the captures passed on are \<^verbatim>\<open>match[1:]\<close>; Go returns
  as \<^verbatim>\<open>match[0]\<close> a piece of the path, and a piece of that length is the path itself. So a
  pattern whose match is a proper prefix or a proper substring of the path is never
  selected.
\<close>

theorem pattern_selected_only_on_full_match:
  assumes "snd (handle_route L r req) = CallDoCr h caps"
  shows "\<exists>re m0. h \<in> set (rgRoutes r) \<and> cr h = Some re \<and>
           MatchString L re (URL_Path req) \<and>
           FindStringSubmatch L re (URL_Path req) = m0 # caps \<and>
           length m0 = length (URL_Path req) \<and>
           (sublist m0 (URL_Path req) \<longrightarrow> m0 = URL_Path req)"
proof -
  from assms have "snd (rgLoop L (URL_Path req) 0 (rgRoutes r)) = Some (CallDoCr h caps)"
    by (auto simp: handle_route_unfold indexLoop_no_DoCr split: option.splits)
  from rgLoop_selected [OF this]
  have h: "h \<in> set (rgRoutes r)" and acc: "accepts L h (URL_Path req)"
    and caps: "caps = captures L h (URL_Path req)"
    by simp_all
  from acc obtain re m0 rest where
    *: "cr h = Some re" "MatchString L re (URL_Path req)"
       "FindStringSubmatch L re (URL_Path req) = m0 # rest" "length m0 = length (URL_Path req)"
    by (auto simp: accepts_def split: option.splits list.splits)
  from * caps have c: "FindStringSubmatch L re (URL_Path req) = m0 # caps"
    by (simp add: captures_def)
  have "sublist m0 (URL_Path req) \<Longrightarrow> m0 = URL_Path req"
    using *(4) by (auto simp: sublist_def)
  with h * c show ?thesis by blast
qed

theorem pattern_selected_only_on_full_match_witness:
  "snd (handle_route gostd demoRoutes (request ''GET'' ''/user/123'')) =
     CallDoCr userAny [''123''] \<and>
   FindStringSubmatch gostd (the (cr userAny)) ''/user/123'' = [''/user/123'', ''123''] \<and>
   sublist ''/user/123'' ''/user/123''"
proof -
  have sel: "snd (handle_route gostd demoRoutes (request ''GET'' ''/user/123'')) =
      CallDoCr userAny [''123'']"
    by (simp add: handle_route_unfold demo_rgRoutes demo_mapRoutes request_def)
       (simp add: demo_defs)
  from pattern_selected_only_on_full_match [OF sel]
  obtain re m0 where "cr userAny = Some re"
    and "FindStringSubmatch gostd re (URL_Path (request ''GET'' ''/user/123'')) = m0 # [''123'']"
    and "length m0 = length (URL_Path (request ''GET'' ''/user/123''))"
    by blast
  moreover have "FindStringSubmatch gostd (the (cr userAny)) ''/user/123'' = [''/user/123'', ''123'']"
    by (simp add: demo_defs)
  ultimately show ?thesis using sel by (simp add: request_def)
qed

text \<open>
  C4. A request path with an entry in the exact-match map is dispatched to that entry
  with \<^verbatim>\<open>Do\<close>, and no pattern route is evaluated for it: the only probe is the lookup
  in the map, and the outcome is the same for any pattern list, any default-index list
  and any regexp implementation.
\<close>

theorem exact_entry_first:
  assumes "mapRoutes r (URL_Path req) = Some h"
  shows "handle_route L r req = ([MapLookup (URL_Path req)], CallDo h) \<and>
         handle_route L' (r\<lparr>rgRoutes := rg, defaultIndex := ix\<rparr>) req = handle_route L r req"
  using assms by (simp add: handle_route_unfold)

theorem exact_entry_first_witness:
  "mapRoutes demoRoutes ''/user/42'' = Some (ActionHandler userAnswer) \<and>
   accepts gostd userAny ''/user/42'' \<and>
   accepts gostd userShow ''/user/42'' \<and>
   handle_route gostd demoRoutes (request ''GET'' ''/user/42'') =
     ([MapLookup ''/user/42''], CallDo (ActionHandler userAnswer))"
proof -
  have m: "mapRoutes demoRoutes (URL_Path (request ''GET'' ''/user/42'')) =
      Some (ActionHandler userAnswer)"
    by (simp add: demo_mapRoutes request_def)
  from exact_entry_first [OF m, of gostd] m demo_user_42 show ?thesis
    by (simp add: request_def)
qed

text \<open>
  C5. Among the pattern routes that accept a path, the one registered first is
  dispatched, whatever the patterns are. The pattern list is in registration order
  (addAction keeps the entries in place and appends). For every path, the scan of the
  list stops at the first entry that accepts it, whatever the entries after it would
  accept; \<^verbatim>\<open>handle\<close> never dispatches another pattern route, and dispatches this one
  with its captures whenever it reaches the scan, that is, when the path has no exact
  entry (which is served before the scan, C4). A route registered afterwards under
  another source does not change that.
\<close>

theorem first_registered_pattern_wins:
  assumes "rgRoutes r = pre @ h # post"
    and "\<forall>g\<in>set pre. rejects L g (URL_Path req)"
    and "accepts L h (URL_Path req)"
  shows "snd (rgLoop L (URL_Path req) 0 (rgRoutes r)) =
           Some (CallDoCr h (captures L h (URL_Path req))) \<and>
         (mapRoutes r (URL_Path req) = None \<longrightarrow>
            snd (handle_route L r req) = CallDoCr h (captures L h (URL_Path req))) \<and>
         (snd (handle_route L r req) = CallDoCr h' caps' \<longrightarrow>
            h' = h \<and> caps' = captures L h (URL_Path req)) \<and>
         prefix (rgRoutes r) (rgRoutes (snd (addAction L s ms ct an r))) \<and>
         (mapRoutes r (URL_Path req) = None \<and> s \<noteq> URL_Path req \<longrightarrow>
            snd (handle_route L (snd (addAction L s ms ct an r)) req) =
              CallDoCr h (captures L h (URL_Path req)))"
proof (intro conjI impI)
  show scan: "snd (rgLoop L (URL_Path req) 0 (rgRoutes r)) =
      Some (CallDoCr h (captures L h (URL_Path req)))"
    using rgLoop_rejects [OF assms(2), of 0 "h # post"] rgLoop_accepts [OF assms(3)] assms(1)
    by simp
  show "prefix (rgRoutes r) (rgRoutes (snd (addAction L s ms ct an r)))"
    by (rule addAction_appends)
  {
    assume "mapRoutes r (URL_Path req) = None"
    from this assms show "snd (handle_route L r req) = CallDoCr h (captures L h (URL_Path req))"
      by (rule first_accepting_selected)
  }
  {
    assume "snd (handle_route L r req) = CallDoCr h' caps'"
    with scan show "h' = h" and "caps' = captures L h (URL_Path req)"
      by (auto simp: handle_route_unfold split: option.splits)
  }
  {
    assume a: "mapRoutes r (URL_Path req) = None \<and> s \<noteq> URL_Path req"
    let ?r' = "snd (addAction L s ms ct an r)"
    from a have m: "mapRoutes ?r' (URL_Path req) = None"
      by (auto simp: addAction_def Let_def split: sum.splits)
    from addAction_appends [of r L s ms ct an] obtain new where
      "rgRoutes ?r' = rgRoutes r @ new"
      by (auto simp: prefix_def)
    with assms(1) have rg: "rgRoutes ?r' = pre @ h # (post @ new)" by simp
    from m rg assms(2,3)
    show "snd (handle_route L ?r' req) = CallDoCr h (captures L h (URL_Path req))"
      by (rule first_accepting_selected)
  }
qed

theorem first_registered_pattern_wins_witness:
  "rgRoutes demoRoutes = [filesGet] @ userAny # [userShow] \<and>
   rejects gostd filesGet ''/user/123'' \<and>
   accepts gostd userAny ''/user/123'' \<and>
   accepts gostd userShow ''/user/123'' \<and>
   mapRoutes demoRoutes ''/user/123'' = None \<and>
   snd (handle_route gostd demoRoutes (request ''GET'' ''/user/123'')) =
     CallDoCr userAny [''123'']"
proof -
  have m: "mapRoutes demoRoutes (URL_Path (request ''GET'' ''/user/123'')) = None"
    by (simp add: demo_mapRoutes request_def)
  have rg: "rgRoutes demoRoutes = [filesGet] @ userAny # [userShow]"
    by (simp add: demo_rgRoutes)
  have pre: "\<forall>g\<in>set [filesGet]. rejects gostd g (URL_Path (request ''GET'' ''/user/123''))"
    by (simp add: demo_user_123 request_def)
  have acc: "accepts gostd userAny (URL_Path (request ''GET'' ''/user/123''))"
    by (simp add: demo_user_123 request_def)
  from first_registered_pattern_wins [OF rg pre acc, THEN conjunct2, THEN conjunct1, THEN mp, OF m]
  have "snd (handle_route gostd demoRoutes (request ''GET'' ''/user/123'')) =
      CallDoCr userAny (captures gostd userAny (URL_Path (request ''GET'' ''/user/123'')))" .
  with m rg demo_user_123 show ?thesis
    by (simp add: request_def)
qed

text \<open>
  C9. For a path with no exact entry that every pattern route rejects, the default-index
  names are tried in the configured order: each is joined to the path and looked up in
  the exact-match map. The first one with an entry is dispatched with \<^verbatim>\<open>Do\<close>, and the
  names after it are not tried (the probes end with the lookup that hit); when none has
  an entry, all have been tried and nothing is dispatched.
\<close>

theorem default_index_in_order:
  assumes "mapRoutes r (URL_Path req) = None"
    and "\<forall>g\<in>set (rgRoutes r). rejects L g (URL_Path req)"
  shows "(defaultIndex r = pre @ page # post \<and>
          (\<forall>q\<in>set pre. mapRoutes r (Join L (URL_Path req) q) = None) \<and>
          mapRoutes r (Join L (URL_Path req) page) = Some h \<longrightarrow>
            handle_route L r req =
              (MapLookup (URL_Path req) # fst (rgLoop L (URL_Path req) 0 (rgRoutes r)) @
                 map (\<lambda>q. MapLookup (Join L (URL_Path req) q)) (pre @ [page]),
               CallDo h)) \<and>
         ((\<forall>q\<in>set (defaultIndex r). mapRoutes r (Join L (URL_Path req) q) = None) \<longrightarrow>
            handle_route L r req =
              (MapLookup (URL_Path req) # fst (rgLoop L (URL_Path req) 0 (rgRoutes r)) @
                 map (\<lambda>q. MapLookup (Join L (URL_Path req) q)) (defaultIndex r),
               NotFound))"
proof (intro conjI impI)
  have rg: "snd (rgLoop L (URL_Path req) 0 (rgRoutes r)) = None"
    using rgLoop_rejects [OF assms(2), of 0 "[]"] by simp
  {
    assume hit: "defaultIndex r = pre @ page # post \<and>
          (\<forall>q\<in>set pre. mapRoutes r (Join L (URL_Path req) q) = None) \<and>
          mapRoutes r (Join L (URL_Path req) page) = Some h"
    then have miss: "\<forall>q\<in>set pre. mapRoutes r (Join L (URL_Path req) q) = None" by simp
    have "indexLoop L (mapRoutes r) (URL_Path req) (defaultIndex r) =
          (map (\<lambda>q. MapLookup (Join L (URL_Path req) q)) (pre @ [page]), Some (CallDo h))"
      using indexLoop_miss [OF miss, of "page # post"] hit
      by (simp add: after_def)
    with rg assms(1) show "handle_route L r req =
           (MapLookup (URL_Path req) # fst (rgLoop L (URL_Path req) 0 (rgRoutes r)) @
              map (\<lambda>q. MapLookup (Join L (URL_Path req) q)) (pre @ [page]),
            CallDo h)"
      by (simp add: handle_route_unfold)
  }
  {
    assume miss: "\<forall>q\<in>set (defaultIndex r). mapRoutes r (Join L (URL_Path req) q) = None"
    have "indexLoop L (mapRoutes r) (URL_Path req) (defaultIndex r) =
          (map (\<lambda>q. MapLookup (Join L (URL_Path req) q)) (defaultIndex r), None)"
      using indexLoop_miss [OF miss, of "[]"]
      by (simp add: after_def)
    with rg assms(1) show "handle_route L r req =
           (MapLookup (URL_Path req) # fst (rgLoop L (URL_Path req) 0 (rgRoutes r)) @
              map (\<lambda>q. MapLookup (Join L (URL_Path req) q)) (defaultIndex r),
            NotFound)"
      by (simp add: handle_route_unfold)
  }
qed

theorem default_index_in_order_witness:
  "defaultIndex demoRoutes = [''index.htm''] @ ''index.html'' # [''default.html''] \<and>
   mapRoutes demoRoutes ''/docs/default.html'' = Some (StaticHandler demoApp) \<and>
   handle_route gostd demoRoutes (request ''GET'' ''/docs'') =
     ([MapLookup ''/docs'', MatchStringCall 0, MatchStringCall 1, MatchStringCall 2,
       MapLookup ''/docs/index.htm'', MapLookup ''/docs/index.html''],
      CallDo (StaticHandler demoApp))"
proof -
  have m: "mapRoutes demoRoutes (URL_Path (request ''GET'' ''/docs'')) = None"
    by (simp add: demo_mapRoutes request_def)
  have rg: "\<forall>g\<in>set (rgRoutes demoRoutes). rejects gostd g (URL_Path (request ''GET'' ''/docs''))"
    by (simp add: demo_rgRoutes demo_docs request_def)
  have ix: "defaultIndex demoRoutes = [''index.htm''] @ ''index.html'' # [''default.html'']"
    by (simp add: demo_defaultIndex)
  have miss: "\<forall>q\<in>set [''index.htm''].
      mapRoutes demoRoutes (Join gostd (URL_Path (request ''GET'' ''/docs'')) q) = None"
    by (simp add: demo_docs demo_mapRoutes request_def)
  have hit: "mapRoutes demoRoutes (Join gostd (URL_Path (request ''GET'' ''/docs'')) ''index.html'') =
      Some (StaticHandler demoApp)"
    by (simp add: demo_docs demo_mapRoutes request_def)
  have probes: "fst (rgLoop gostd ''/docs'' 0 [filesGet, userAny, userShow]) =
      [MatchStringCall 0, MatchStringCall 1, MatchStringCall 2]"
    by (simp add: demo_defs)
  from default_index_in_order [OF m rg, THEN conjunct1, THEN mp, OF conjI [OF ix conjI [OF miss hit]]]
    ix probes
  show ?thesis
    by (simp add: demo_rgRoutes demo_docs demo_mapRoutes request_def)
qed

text \<open>
  C10. Route selection depends on the request path only. Two requests with the same path
  get the same probes and the same dispatch, whatever their methods (the variable
  \<^verbatim>\<open>method\<close> of \<^verbatim>\<open>handle\<close> is computed and never read); and the allowed-methods sets of
  the handlers are never consulted: replacing all of them changes nothing of what
  \<^verbatim>\<open>handle\<close> does for a request.
\<close>

theorem selection_ignores_method:
  assumes "URL_Path req' = URL_Path req"
  shows "handle_route L r req' = handle_route L r req \<and>
         handle L E (withMethods ms r) date req wd = handle L E r date req wd"
proof -
  have "handle_route L r req' = handle_route L r req"
    unfolding handle_route_unfold assms by (rule refl)
  moreover have "handle L E (withMethods ms r) date req wd = handle L E r date req wd"
    by (cases "snd (handle_route L r req)")
       (simp_all add: handle_def handle_route_methods dispatchWithMethods_def
          Do_methods DoCr_methods)
  ultimately show ?thesis by simp
qed

theorem selection_ignores_method_witness:
  "methods userAnswer ''DELETE'' = None \<and>
   handle_route gostd demoRoutes (request ''DELETE'' ''/user/42'') =
     handle_route gostd demoRoutes (request ''GET'' ''/user/42'') \<and>
   snd (handle_route gostd demoRoutes (request ''DELETE'' ''/user/42'')) =
     CallDo (ActionHandler userAnswer)"
proof -
  have p: "URL_Path (request ''DELETE'' ''/user/42'') = URL_Path (request ''GET'' ''/user/42'')"
    by (simp add: request_def)
  have "snd (handle_route gostd demoRoutes (request ''GET'' ''/user/42'')) =
      CallDo (ActionHandler userAnswer)"
    by (simp add: handle_route_unfold demo_mapRoutes request_def)
  with selection_ignores_method
         [where L = gostd and r = demoRoutes and E = demoEnv and ms = Map.empty
            and date = "''now''" and wd = emptyWorld, OF p]
  show ?thesis
    by (simp add: userAnswer_def)
qed

subsection \<open>Claims about registration\<close>

text \<open>
  C7. addAction compiles the source and stores it as a pattern route exactly when the
  source contains \<^verbatim>\<open>*\<close> or \<^verbatim>\<open>?\<close>: then the result is what \<^verbatim>\<open>regexp.Compile\<close> decides
  (the error and an unchanged table, or the new entry at the end of the pattern list, the
  map untouched). Any other source, whatever regexp syntax it contains, is stored in the
  map under the source itself, with no expression, and without a call of the compiler:
  the result is the same for every regexp implementation.
\<close>

theorem addAction_kind_by_wildcard:
  "(CHR ''*'' \<in> set s \<or> CHR ''?'' \<in> set s \<longrightarrow>
      addAction L s ms ct an r =
        (case Compile L s of
           Inl err \<Rightarrow> (Some err, r)
         | Inr re \<Rightarrow>
             (None, r\<lparr>rgRoutes := rgRoutes r @
                [\<lparr>app = routes_app r, methods = ms, cr = Some re, ctype = ct, handler = an\<rparr>]\<rparr>))) \<and>
   (CHR ''*'' \<notin> set s \<and> CHR ''?'' \<notin> set s \<longrightarrow>
      addAction L s ms ct an r =
        (None, r\<lparr>mapRoutes := (mapRoutes r)(s \<mapsto> ActionHandler
           \<lparr>app = routes_app r, methods = ms, cr = None, ctype = ct, handler = an\<rparr>)\<rparr>) \<and>
      addAction L' s ms ct an r = addAction L s ms ct an r)"
  by (auto simp: addAction_def Let_def ContainsAny_def list_ex_iff split: sum.splits)

theorem addAction_kind_by_wildcard_witness:
  "CHR ''*'' \<notin> set userPlus \<and> CHR ''?'' \<notin> set userPlus \<and>
   mapRoutes (snd (addAction gostd userPlus Map.empty ''User'' ''Show'' (NewRoutes demoApp [])))
     userPlus =
     Some (ActionHandler \<lparr>app = demoApp, methods = Map.empty, cr = None,
                          ctype = ''User'', handler = ''Show''\<rparr>) \<and>
   rgRoutes (snd (addAction gostd userPlus Map.empty ''User'' ''Show'' (NewRoutes demoApp []))) = [] \<and>
   CHR ''*'' \<in> set userDigits \<and>
   rgRoutes (snd (addAction gostd userDigits [''GET'' \<mapsto> True] ''User'' ''Show''
     (NewRoutes demoApp []))) = [userShow]"
proof -
  have plus: "CHR ''*'' \<notin> set userPlus \<and> CHR ''?'' \<notin> set userPlus"
    by (simp add: userPlus_def)
  have star: "CHR ''*'' \<in> set userDigits"
    by (simp add: userDigits_def)
  have c: "Compile gostd userDigits = Inr (the (compiled userDigits))"
    and c': "compiled userDigits = Some (the (compiled userDigits))"
    by (simp_all add: demo_defs)
  note exact = addAction_kind_by_wildcard
    [of userPlus gostd Map.empty "''User''" "''Show''" "NewRoutes demoApp []" gostd,
     THEN conjunct2, THEN mp, OF plus, THEN conjunct1]
  note pattern = addAction_kind_by_wildcard
    [of userDigits gostd "[''GET'' \<mapsto> True]" "''User''" "''Show''" "NewRoutes demoApp []" gostd,
     THEN conjunct1, THEN mp, OF disjI1 [OF star]]
  have "rgRoutes (snd (addAction gostd userDigits [''GET'' \<mapsto> True] ''User'' ''Show''
       (NewRoutes demoApp []))) = [userShow]"
    by (simp only: pattern c) (simp add: NewRoutes_def userShow_def c' [symmetric])
  with plus star show ?thesis
    by (simp only: exact) (simp add: NewRoutes_def)
qed

text \<open>
  C6, as the code has it. A source that contains \<^verbatim>\<open>*\<close> or \<^verbatim>\<open>?\<close> and that
  \<^verbatim>\<open>regexp.Compile\<close> refuses makes addAction return the compilation error and leave the
  route table as it was, so that every later lookup goes as before. (A source with
  neither character is never compiled: see C7 and the counterexample below.)
\<close>

theorem invalid_wildcard_source_rejected:
  assumes "CHR ''*'' \<in> set s \<or> CHR ''?'' \<in> set s" and "Compile L s = Inl err"
  shows "addAction L s ms ct an r = (Some err, r) \<and>
         handle_route L (snd (addAction L s ms ct an r)) req = handle_route L r req"
  using assms by (auto simp: addAction_def Let_def ContainsAny_def list_ex_iff)

theorem invalid_wildcard_source_rejected_witness:
  "CHR ''*'' \<in> set ''/user/(.*'' \<and>
   Compile gostd ''/user/(.*'' = Inl ''missing closing )'' \<and>
   addAction gostd ''/user/(.*'' Map.empty ''User'' ''Show'' demoRoutes =
     (Some ''missing closing )'', demoRoutes)"
proof -
  have w: "CHR ''*'' \<in> set ''/user/(.*'' \<or> CHR ''?'' \<in> set ''/user/(.*''"
    by simp
  have c: "Compile gostd ''/user/(.*'' = Inl ''missing closing )''"
    by (simp add: gostd_def goCompile_def)
  from invalid_wildcard_source_rejected
         [where ms = Map.empty and ct = "''User''" and an = "''Show''" and r = demoRoutes
            and req = "request ''GET'' ''/''", OF w c] c
  show ?thesis
    by simp
qed

text \<open>
  The claim C6 as it is written fails: the source \<^verbatim>\<open>/user/(\<close> is not a regular
  expression (its group is not closed), but it has no \<^verbatim>\<open>*\<close> and no \<^verbatim>\<open>?\<close>, so addAction
  returns no error and adds an exact entry, which the path \<^verbatim>\<open>/user/(\<close> then hits.
\<close>

theorem invalid_literal_source_stored:
  "Compile gostd ''/user/('' = Inl ''missing closing )'' \<and>
   fst (addAction gostd ''/user/('' Map.empty ''User'' ''Show'' (NewRoutes demoApp [])) = None \<and>
   mapRoutes (snd (addAction gostd ''/user/('' Map.empty ''User'' ''Show'' (NewRoutes demoApp [])))
     ''/user/('' =
     Some (ActionHandler \<lparr>app = demoApp, methods = Map.empty, cr = None,
                          ctype = ''User'', handler = ''Show''\<rparr>) \<and>
   snd (handle_route gostd
          (snd (addAction gostd ''/user/('' Map.empty ''User'' ''Show'' (NewRoutes demoApp [])))
          (request ''GET'' ''/user/('')) =
     CallDo (ActionHandler \<lparr>app = demoApp, methods = Map.empty, cr = None,
                            ctype = ''User'', handler = ''Show''\<rparr>)"
  by (simp add: handle_route_unfold addAction_def NewRoutes_def ContainsAny_def gostd_def
        goCompile_def request_def)


subsection \<open>Claims about the dispatcher\<close>

lemma Itoa_examples:
  "Itoa 0 = ''0''" "Itoa (Suc (Suc 0)) = ''2''" "Itoa 11 = ''11''" "Itoa 1024 = ''1024''"
  by code_simp+

lemmas run_defs = DoCr_unfold DoCr_invoke_def DoCr_finish_def construct_def callHook_def
  parseBody_def xsrfFails_def render_def writeContent_def Abort_def SetHeader_def HeaderSet_def
  WriteHeader_def Write_def Println_def demoEnv_def demoApp_def emptyWorld_def request_def
  mainIndex_def userAnswer_def chattyIndex_def rewriterIndex_def afterRet_def Itoa_examples
  after_def Let_def

text \<open>
  C2. With CSRF checking enabled and a POST request: if the cookie named by the tag is
  missing, or its value is empty, or its value differs from the first value of the form
  field of the same name, \<^verbatim>\<open>DoCr\<close> sends status 500, writes the body \<^verbatim>\<open>xrsf error.\<close> and
  returns; the only call it has made is the parsing of the form, so no instance was
  built, no hook ran and nothing was invoked. If the cookie has a non-empty value equal
  to the form value, \<^verbatim>\<open>DoCr\<close> goes on: its result is that of the remaining stages, and
  the instance is built and the action is invoked.
\<close>

theorem xsrf_check:
  assumes "CheckXrsf (app h)" and "Method req = ''POST''"
  shows
    "(let tag = XSRF_TAG E;
          req1 = snd (parseBody E (app h) req);
          formVal = (case Form req1 tag of [] \<Rightarrow> [] | v # _ \<Rightarrow> v);
          wd1 = HeaderSet ''Content-Type'' ''text/html; charset=utf-8'' wd
      in ((map_of (Cookies req) tag = None \<or> map_of (Cookies req) tag = Some [] \<or>
           (\<exists>v. map_of (Cookies req) tag = Some v \<and> v \<noteq> formVal)) \<longrightarrow>
            DoCr E h req match wd =
              (fst (parseBody E (app h) req),
               wd1\<lparr>wcalls := wcalls wd @ [WriteHeaderCall 500, WriteCall ''xrsf error.'']\<rparr>) \<and>
            (fst (DoCr E h req match wd) = [CallParseForm] \<or>
             fst (DoCr E h req match wd) = [CallParseMultipartForm (MaxUploadSize (app h))])) \<and>
         ((\<exists>v. map_of (Cookies req) tag = Some v \<and> v \<noteq> [] \<and> v = formVal) \<longrightarrow>
            DoCr E h req match wd =
              after (fst (parseBody E (app h) req))
                (DoCr_finish E h (DoCr_invoke E h req1 match wd1)) \<and>
            CallNew \<in> set (fst (DoCr E h req match wd)) \<and>
            CallSafelyCall (handler h) (map VString match) \<in> set (fst (DoCr E h req match wd))))"
proof -
  let ?req1 = "snd (parseBody E (app h) req)"
  let ?formVal = "case Form ?req1 (XSRF_TAG E) of [] \<Rightarrow> [] | v # _ \<Rightarrow> v"
  let ?wd1 = "HeaderSet ''Content-Type'' ''text/html; charset=utf-8'' wd"
  have fails: "xsrfFails E ?req1 \<longleftrightarrow>
      (map_of (Cookies req) (XSRF_TAG E) = None \<or> map_of (Cookies req) (XSRF_TAG E) = Some [] \<or>
       (\<exists>v. map_of (Cookies req) (XSRF_TAG E) = Some v \<and> v \<noteq> ?formVal))"
    by (auto simp: xsrfFails_def Let_def split: option.splits)
  have fin: "set (fst (DoCr_invoke E h ?req1 match ?wd1)) \<subseteq>
      set (fst (DoCr_finish E h (DoCr_invoke E h ?req1 match ?wd1)))"
    by (cases "DoCr_invoke E h ?req1 match ?wd1")
       (auto simp: DoCr_finish_def Let_def case_prod_beta split: option.splits)
  have called: "CallNew \<in> set (fst (DoCr_invoke E h ?req1 match ?wd1))"
    "CallSafelyCall (handler h) (map VString match) \<in> set (fst (DoCr_invoke E h ?req1 match ?wd1))"
    by (simp_all add: DoCr_invoke_calls)
  have failed: "xsrfFails E ?req1 \<Longrightarrow> DoCr E h req match wd =
      (fst (parseBody E (app h) req),
       ?wd1\<lparr>wcalls := wcalls wd @ [WriteHeaderCall 500, WriteCall ''xrsf error.'']\<rparr>)"
    using assms by (simp add: DoCr_unfold Write_def WriteHeader_def HeaderSet_def)
  have passed: "\<not> xsrfFails E ?req1 \<Longrightarrow> DoCr E h req match wd =
      after (fst (parseBody E (app h) req)) (DoCr_finish E h (DoCr_invoke E h ?req1 match ?wd1))"
    by (simp add: DoCr_unfold)
  show ?thesis
    unfolding Let_def
  proof (intro conjI impI)
    assume "map_of (Cookies req) (XSRF_TAG E) = None \<or>
       map_of (Cookies req) (XSRF_TAG E) = Some [] \<or>
       (\<exists>v. map_of (Cookies req) (XSRF_TAG E) = Some v \<and> v \<noteq> ?formVal)"
    then have f: "xsrfFails E ?req1" by (simp only: fails)
    from failed [OF f] show "DoCr E h req match wd =
      (fst (parseBody E (app h) req),
       ?wd1\<lparr>wcalls := wcalls wd @ [WriteHeaderCall 500, WriteCall ''xrsf error.'']\<rparr>)" .
    from failed [OF f] parseBody_calls [of E "app h" req]
    show "fst (DoCr E h req match wd) = [CallParseForm] \<or>
          fst (DoCr E h req match wd) = [CallParseMultipartForm (MaxUploadSize (app h))]"
      by simp
  next
    assume "\<exists>v. map_of (Cookies req) (XSRF_TAG E) = Some v \<and> v \<noteq> [] \<and> v = ?formVal"
    then have p: "\<not> xsrfFails E ?req1" by (auto simp: fails)
    from passed [OF p] show "DoCr E h req match wd =
      after (fst (parseBody E (app h) req)) (DoCr_finish E h (DoCr_invoke E h ?req1 match ?wd1))" .
    from passed [OF p] fin called
    show "CallNew \<in> set (fst (DoCr E h req match wd))"
      and "CallSafelyCall (handler h) (map VString match) \<in> set (fst (DoCr E h req match wd))"
      by auto
  qed
qed

theorem xsrf_check_witness:
  "CheckXrsf (app mainIndex) \<and>
   DoCr demoEnv mainIndex (request ''POST'' ''/'') [] emptyWorld =
     ([CallParseForm],
      \<lparr>Header = [''Content-Type'' \<mapsto> ''text/html; charset=utf-8''],
       wcalls = [WriteHeaderCall 500, WriteCall ''xrsf error.''],
       writeErr = None, logs = []\<rparr>) \<and>
   DoCr demoEnv mainIndex
     ((request ''POST'' ''/'')\<lparr>Cookies := [(''_xsrf'', ''tok'')],
        Form := (\<lambda>k. if k = ''_xsrf'' then [''tok''] else [])\<rparr>) [] emptyWorld =
     ([CallParseForm, CallNew, CallStructMap, CallBefore, CallSafelyCall ''Index'' [], CallAfter],
      \<lparr>Header = [''Content-Type'' \<mapsto> ''text/html; charset=utf-8'', ''X-After'' \<mapsto> ''1'',
                 ''Content-Length'' \<mapsto> ''2''],
       wcalls = [WriteCall ''ok''], writeErr = None, logs = []\<rparr>)"
proof -
  have c: "CheckXrsf (app mainIndex)"
    by (simp add: mainIndex_def demoApp_def)
  have m: "Method (request ''POST'' ''/'') = ''POST''"
    by (simp add: request_def)
  note t = xsrf_check
    [where E = demoEnv and match = "[]" and wd = emptyWorld, OF c m, unfolded Let_def]
  have missing: "map_of (Cookies (request ''POST'' ''/'')) (XSRF_TAG demoEnv) = None"
    by (simp add: request_def)
  from t [THEN conjunct1, THEN mp, OF disjI1 [OF missing], THEN conjunct1]
  have "DoCr demoEnv mainIndex (request ''POST'' ''/'') [] emptyWorld =
     ([CallParseForm],
      \<lparr>Header = [''Content-Type'' \<mapsto> ''text/html; charset=utf-8''],
       wcalls = [WriteHeaderCall 500, WriteCall ''xrsf error.''],
       writeErr = None, logs = []\<rparr>)"
    by (simp add: parseBody_def HeaderSet_def emptyWorld_def request_def mainIndex_def)
  moreover have "DoCr demoEnv mainIndex
     ((request ''POST'' ''/'')\<lparr>Cookies := [(''_xsrf'', ''tok'')],
        Form := (\<lambda>k. if k = ''_xsrf'' then [''tok''] else [])\<rparr>) [] emptyWorld =
     ([CallParseForm, CallNew, CallStructMap, CallBefore, CallSafelyCall ''Index'' [], CallAfter],
      \<lparr>Header = [''Content-Type'' \<mapsto> ''text/html; charset=utf-8'', ''X-After'' \<mapsto> ''1'',
                 ''Content-Length'' \<mapsto> ''2''],
       wcalls = [WriteCall ''ok''], writeErr = None, logs = []\<rparr>)"
    by (simp add: run_defs)
  ultimately show ?thesis using c by simp
qed




text \<open>
  C8, as the code has it. When the CSRF check does not stop the request, the invocation
  returns without error, and the first element of the result slice is a string once the
  After hook has returned (the hook is given the slice and can replace its elements;
  without an After hook the slice is as the invocation returned it), \<^verbatim>\<open>DoCr\<close> sets
  Content-Length to the decimal length of that string and writes exactly that string:
  one \<^verbatim>\<open>Write\<close> of its bytes, after whatever the handler's own code had written to the
  response, and no status of its own. The body is the string itself when nothing was
  written before, as for a method returning \<^verbatim>\<open>ok\<close>: body \<^verbatim>\<open>ok\<close>, Content-Length 2.
\<close>

theorem string_result_appended:
  assumes "\<not> (CheckXrsf (app h) \<and> Method req = ''POST'' \<and>
              xsrfFails E (snd (parseBody E (app h) req)))"
    and "DoCr_invoke E h (snd (parseBody E (app h) req)) match
           (HeaderSet ''Content-Type'' ''text/html; charset=utf-8'' wd) =
         (t, (ret, None), st)"
    and "callHook E (ctype h) ''After'' CallAfter
           [VString (TypeString E (ctype h)), VString (handler h), VValues ret] st =
         (t3, args, (vc', wd'))"
    and "afterRet ret args = VString s # rest"
  shows "Header (snd (DoCr E h req match wd)) ''Content-Length'' = Some (Itoa (length s)) \<and>
         wcalls (snd (DoCr E h req match wd)) = wcalls wd' @ [WriteCall s] \<and>
         body (wcalls (snd (DoCr E h req match wd))) = body (wcalls wd') @ s \<and>
         statuses (wcalls (snd (DoCr E h req match wd))) = statuses (wcalls wd') \<and>
         (body (wcalls wd') = [] \<longrightarrow> body (wcalls (snd (DoCr E h req match wd))) = s) \<and>
         (MethodByName E (ctype h) ''After'' = None \<longrightarrow> ret = VString s # rest \<and> wd' = snd st)"
proof -
  have "snd (DoCr E h req match wd) = writeContent s wd'"
    using assms(2,3,4)
    by (simp add: DoCr_passed [OF assms(1)] DoCr_finish_def Let_def render_def)
  moreover have "MethodByName E (ctype h) ''After'' = None \<Longrightarrow> ret = VString s # rest \<and> wd' = snd st"
    using assms(3,4) by (auto simp: callHook_def afterRet_def)
  ultimately show ?thesis by (simp add: writeContent_effect)
qed

theorem string_result_appended_witness:
  "Header (snd (DoCr demoEnv mainIndex (request ''GET'' ''/'') [] emptyWorld)) ''Content-Length'' =
     Some ''2'' \<and>
   wcalls (snd (DoCr demoEnv mainIndex (request ''GET'' ''/'') [] emptyWorld)) = [WriteCall ''ok''] \<and>
   body (wcalls (snd (DoCr demoEnv mainIndex (request ''GET'' ''/'') [] emptyWorld))) = ''ok'' \<and>
   statuses (wcalls (snd (DoCr demoEnv mainIndex (request ''GET'' ''/'') [] emptyWorld))) = []"
proof -
  let ?req = "request ''GET'' ''/''"
  let ?wd1 = "\<lparr>Header = [''Content-Type'' \<mapsto> ''text/html; charset=utf-8''], wcalls = [],
               writeErr = None, logs = []\<rparr>"
  let ?vc = "[''Action'', ''StructMap'', ''Before'', ''Index'']"
  let ?args = "[VString ''Main'', VString ''Index'', VValues [VString ''ok'']]"
  have pass: "\<not> (CheckXrsf (app mainIndex) \<and> Method ?req = ''POST'' \<and>
      xsrfFails demoEnv (snd (parseBody demoEnv (app mainIndex) ?req)))"
    by (simp add: request_def)
  have called: "DoCr_invoke demoEnv mainIndex (snd (parseBody demoEnv (app mainIndex) ?req)) []
      (HeaderSet ''Content-Type'' ''text/html; charset=utf-8'' emptyWorld) =
    ([CallNew, CallStructMap, CallBefore, CallSafelyCall ''Index'' []],
     ([VString ''ok''], None), (?vc, ?wd1))"
    by (simp add: run_defs)
  have hook: "callHook demoEnv (ctype mainIndex) ''After'' CallAfter
      [VString (TypeString demoEnv (ctype mainIndex)), VString (handler mainIndex),
       VValues [VString ''ok'']] (?vc, ?wd1) =
    ([CallAfter], ?args, (?vc @ [''After''], HeaderSet ''X-After'' ''1'' ?wd1))"
    by (simp add: run_defs)
  have first: "afterRet [VString ''ok''] ?args = VString ''ok'' # []"
    by (simp add: afterRet_def)
  from string_result_appended [OF pass called hook first] show ?thesis
    by (simp add: HeaderSet_def Itoa_examples)
qed

text \<open>
  The claim C8 as it is written fails. The method \<^verbatim>\<open>Index\<close> of the type \<^verbatim>\<open>Chatty\<close>
  returns the string \<^verbatim>\<open>ok\<close>, and the Before hook of the type has written \<^verbatim>\<open>pre\<close> to the
  response before: the body is \<^verbatim>\<open>preok\<close>, five bytes, not the string, and Content-Length
  is 2, not the length of the body.
\<close>

theorem earlier_output_precedes_string:
  "fst (snd (DoCr_invoke demoEnv chattyIndex
               (snd (parseBody demoEnv (app chattyIndex) (request ''GET'' ''/''))) []
               (HeaderSet ''Content-Type'' ''text/html; charset=utf-8'' emptyWorld))) =
     ([VString ''ok''], None) \<and>
   body (wcalls (snd (DoCr demoEnv chattyIndex (request ''GET'' ''/'') [] emptyWorld))) =
     ''preok'' \<and>
   body (wcalls (snd (DoCr demoEnv chattyIndex (request ''GET'' ''/'') [] emptyWorld))) \<noteq>
     ''ok'' \<and>
   Header (snd (DoCr demoEnv chattyIndex (request ''GET'' ''/'') [] emptyWorld))
     ''Content-Length'' = Some ''2''"
  by (simp add: run_defs)

text \<open>
  The After hook of the type \<^verbatim>\<open>Rewriter\<close> replaces the result: the invocation returned
  \<^verbatim>\<open>ok\<close>, and what is written is the string the hook left in the slice.
\<close>

lemma example_after_hook_replaces_result:
  "fst (snd (DoCr_invoke demoEnv rewriterIndex
               (snd (parseBody demoEnv (app rewriterIndex) (request ''GET'' ''/''))) []
               (HeaderSet ''Content-Type'' ''text/html; charset=utf-8'' emptyWorld))) =
     ([VString ''ok''], None)"
  "wcalls (snd (DoCr demoEnv rewriterIndex (request ''GET'' ''/'') [] emptyWorld)) =
     [WriteCall ''changed'']"
  by (simp_all add: run_defs)

end
